theory Spec2Isabelle
  imports Main
begin

section \<open>Data model\<close>

text \<open>
  Modelled from the spec: the Prisma schema (the columns, keys and defaults of the
  tables) is not among the sources. The columns of each table are those of the spec's
  data model (section 3); they are also the columns that the routes of
  \<^verbatim>\<open>src/src/routes/books.ts\<close> and of the payment router (the block of
  \<^verbatim>\<open>src/src/config.ts\<close> that starts at line 427) read and write.

  Identifiers are the strings the routes pass around; a \<^verbatim>\<open>Date\<close> is its number of
  milliseconds since the epoch; strings are byte strings (UTF-8). A column name that
  occurs in several tables carries the table's name in front (\<open>issue_book_id\<close> is
  \<^verbatim>\<open>BookIssue.book_id\<close>, \<open>job_payment_status\<close> is \<^verbatim>\<open>PrintJob.payment_status\<close>, and
  so on).
\<close>

type_synonym date = int

datatype BookStatus = AVAILABLE | ISSUED

datatype Role = USER | LIBRARY_ADMIN | SUPER_ADMIN

datatype PaymentStatus = PENDING | SUCCESS | FAILED

datatype PaymentMethod = UPI | GPAY

record Book =
  book_id :: string
  book_name :: string
  author_name :: string
  category :: string
  publication_year :: int
  library_location :: string
  status :: BookStatus
  book_created_at :: date

record User =
  user_id :: string
  user_name :: string
  email :: string
  password :: "string option"
  user_role :: Role
  user_created_at :: date
  last_login :: "date option"

record BookIssue =
  issue_id :: string
  issue_book_id :: string
  issue_user_id :: string
  issued_date :: date
  due_date :: date
  returned_date :: "date option"

record PrintJob =
  print_id :: string
  job_user_id :: string
  file_name :: string
  storage_path :: string
  total_pages :: int
  cost_per_page :: int
  total_cost :: int
  job_payment_status :: PaymentStatus
  job_created_at :: date

record Payment =
  payment_id :: string
  pay_user_id :: string
  pay_print_id :: string
  payment_method :: PaymentMethod
  transaction_id :: "string option"
  payment_status :: PaymentStatus
  paid_at :: "date option"
  pay_created_at :: date

text \<open>The store: one list of rows per table, in insertion order.\<close>

record store =
  books :: "Book list"
  users :: "User list"
  bookIssues :: "BookIssue list"
  printJobs :: "PrintJob list"
  payments :: "Payment list"

text \<open>The credential attached to a request by \<^verbatim>\<open>requireAuth\<close> (\<^verbatim>\<open>JwtUser\<close>).\<close>

record JwtUser =
  userId :: string
  role :: Role

section \<open>Outcomes\<close>

text \<open>
  A route answers with a JSON body or with an error status and a message:
  400 is \<open>BadRequest\<close>, 403 \<open>Forbidden\<close>, 404 \<open>NotFound\<close>, 409 \<open>Conflict\<close>.
  An exception that escapes a handler reaches the error middleware of \<^verbatim>\<open>createApp\<close>,
  which answers 500 (\<open>InternalError\<close>).
\<close>

datatype http_error =
    BadRequest string
  | Forbidden string
  | NotFound string
  | Conflict string
  | InternalError string

text \<open>What a store operation throws.\<close>

datatype prisma_error = UniqueConstraintFailed | RecordNotFound

section \<open>Store operations\<close>

definition book_findUnique :: "store \<Rightarrow> string \<Rightarrow> Book option" where
  "book_findUnique s bid = find (\<lambda>b. book_id b = bid) (books s)"

definition user_findUnique :: "store \<Rightarrow> string \<Rightarrow> User option" where
  "user_findUnique s uid = find (\<lambda>u. user_id u = uid) (users s)"

definition printJob_findUnique :: "store \<Rightarrow> string \<Rightarrow> PrintJob option" where
  "printJob_findUnique s pid = find (\<lambda>j. print_id j = pid) (printJobs s)"

definition payment_findUnique :: "store \<Rightarrow> string \<Rightarrow> Payment option" where
  "payment_findUnique s pid = find (\<lambda>p. payment_id p = pid) (payments s)"

text \<open>
  \<^verbatim>\<open>update({ where: { <key> }, data })\<close> rewrites the row with that key and throws when
  there is none.
\<close>

definition book_update :: "store \<Rightarrow> string \<Rightarrow> (Book \<Rightarrow> Book) \<Rightarrow> prisma_error + store" where
  "book_update s bid f =
     (if \<exists>b \<in> set (books s). book_id b = bid
      then Inr (s\<lparr>books := map (\<lambda>b. if book_id b = bid then f b else b) (books s)\<rparr>)
      else Inl RecordNotFound)"

definition bookIssue_update ::
  "store \<Rightarrow> string \<Rightarrow> (BookIssue \<Rightarrow> BookIssue) \<Rightarrow> prisma_error + (store \<times> BookIssue)" where
  "bookIssue_update s iid f =
     (case find (\<lambda>i. issue_id i = iid) (bookIssues s) of
        None \<Rightarrow> Inl RecordNotFound
      | Some row \<Rightarrow>
          Inr (s\<lparr>bookIssues := map (\<lambda>i. if issue_id i = iid then f i else i) (bookIssues s)\<rparr>,
               f row))"

definition printJob_update ::
  "store \<Rightarrow> string \<Rightarrow> (PrintJob \<Rightarrow> PrintJob) \<Rightarrow> prisma_error + store" where
  "printJob_update s pid f =
     (if \<exists>j \<in> set (printJobs s). print_id j = pid
      then Inr (s\<lparr>printJobs := map (\<lambda>j. if print_id j = pid then f j else j) (printJobs s)\<rparr>)
      else Inl RecordNotFound)"

definition payment_update ::
  "store \<Rightarrow> string \<Rightarrow> (Payment \<Rightarrow> Payment) \<Rightarrow> prisma_error + (store \<times> Payment)" where
  "payment_update s pid f =
     (case find (\<lambda>p. payment_id p = pid) (payments s) of
        None \<Rightarrow> Inl RecordNotFound
      | Some row \<Rightarrow>
          Inr (s\<lparr>payments := map (\<lambda>p. if payment_id p = pid then f p else p) (payments s)\<rparr>,
               f row))"

text \<open>
  Modelled from the spec: the column defaults of \<^verbatim>\<open>BookIssue\<close> are in the schema, which
  is not among the sources. For
  \<^verbatim>\<open>bookIssue.create({ data: { book_id, user_id, due_date } })\<close> the store supplies the
  key \<open>new_id\<close> and the clock value \<open>now\<close>; a new issue has \<open>issued_date = now\<close> and
  no \<open>returned_date\<close> (spec, section 4.1), and the unique key (spec, section 3) refuses
  a key that is already in the table.
\<close>

definition bookIssue_create ::
  "store \<Rightarrow> string \<Rightarrow> date \<Rightarrow> string \<Rightarrow> string \<Rightarrow> date \<Rightarrow> prisma_error + (store \<times> BookIssue)" where
  "bookIssue_create s new_id now bid uid due =
     (if new_id \<in> set (map issue_id (bookIssues s)) then Inl UniqueConstraintFailed
      else
        (let created = \<lparr>issue_id = new_id, issue_book_id = bid, issue_user_id = uid,
                         issued_date = now, due_date = due, returned_date = None\<rparr>
         in Inr (s\<lparr>bookIssues := bookIssues s @ [created]\<rparr>, created)))"

text \<open>
  \<^verbatim>\<open>prisma.$transaction(async (tx) => ...)\<close>: the body runs on the store; when it throws,
  nothing it wrote is kept.
\<close>

definition transaction ::
  "(store \<Rightarrow> prisma_error + (store \<times> 'a)) \<Rightarrow> store \<Rightarrow> store \<times> (prisma_error + 'a)" where
  "transaction body s =
     (case body s of
        Inl e \<Rightarrow> (s, Inl e)
      | Inr (s', a) \<Rightarrow> (s', Inr a))"

text \<open>
  \<^verbatim>\<open>asyncHandler\<close> hands an exception of the handler to the error middleware
  (\<^verbatim>\<open>createApp\<close>: status 500, message \<^verbatim>\<open>Internal server error\<close>).
\<close>

definition asyncHandler :: "store \<times> (prisma_error + 'a) \<Rightarrow> store \<times> (http_error + 'a)" where
  "asyncHandler r =
     (case r of
        (s, Inl e) \<Rightarrow> (s, Inl (InternalError ''Internal server error''))
      | (s, Inr a) \<Rightarrow> (s, Inr a))"

section \<open>Circulation: \<^verbatim>\<open>POST /books/issue\<close>\<close>

text \<open>
  The handler reads the book and the borrower (lines 145 to 152) and then runs the
  transaction (lines 154 to 166). \<open>issueBook_reads\<close> is the first part: the error it
  answers with, if any.
\<close>

definition issueBook_reads :: "store \<Rightarrow> string \<Rightarrow> string \<Rightarrow> http_error option" where
  "issueBook_reads s bid uid =
     (case book_findUnique s bid of
        None \<Rightarrow> Some (NotFound ''Book not found'')
      | Some book \<Rightarrow>
          if status book \<noteq> AVAILABLE then Some (Conflict ''Book is not available'')
          else (case user_findUnique s uid of
                  None \<Rightarrow> Some (NotFound ''User not found'')
                | Some user \<Rightarrow> None))"

definition issueBook_tx ::
  "store \<Rightarrow> string \<Rightarrow> date \<Rightarrow> string \<Rightarrow> string \<Rightarrow> date \<Rightarrow> store \<times> (http_error + BookIssue)" where
  "issueBook_tx s new_id now bid uid due =
     asyncHandler (transaction
       (\<lambda>tx. case bookIssue_create tx new_id now bid uid due of
                Inl e \<Rightarrow> Inl e
              | Inr (tx1, created) \<Rightarrow>
                  (case book_update tx1 bid (\<lambda>b. b\<lparr>status := ISSUED\<rparr>) of
                     Inl e \<Rightarrow> Inl e
                   | Inr tx2 \<Rightarrow> Inr (tx2, created))) s)"

definition issueBook ::
  "store \<Rightarrow> string \<Rightarrow> date \<Rightarrow> string \<Rightarrow> string \<Rightarrow> date \<Rightarrow> store \<times> (http_error + BookIssue)" where
  "issueBook s new_id now bid uid due =
     (case issueBook_reads s bid uid of
        Some e \<Rightarrow> (s, Inl e)
      | None \<Rightarrow> issueBook_tx s new_id now bid uid due)"

section \<open>Circulation: \<^verbatim>\<open>POST /books/return\<close>\<close>

text \<open>JavaScript truthiness of an optional string: absent and empty are falsy.\<close>

definition truthy :: "string option \<Rightarrow> bool" where
  "truthy sel = (case sel of None \<Rightarrow> False | Some x \<Rightarrow> x \<noteq> [])"

text \<open>One spread of the \<^verbatim>\<open>where\<close> object: a falsy selector adds no condition.\<close>

definition sel_matches :: "string option \<Rightarrow> string \<Rightarrow> bool" where
  "sel_matches sel v = (case sel of None \<Rightarrow> True | Some x \<Rightarrow> if x = [] then True else v = x)"

definition return_where :: "string option \<Rightarrow> string option \<Rightarrow> BookIssue \<Rightarrow> bool" where
  "return_where iid bid i =
     (returned_date i = None \<and> sel_matches iid (issue_id i) \<and> sel_matches bid (issue_book_id i))"

text \<open>
  \<^verbatim>\<open>findFirst({ where, orderBy: { issued_date: 'desc' } })\<close>: the matching rows, latest
  \<open>issued_date\<close> first, and the first of them. Rows with the same date keep their table
  order (the store's choice among them is not fixed by the query).
\<close>

definition bookIssue_findFirst :: "store \<Rightarrow> (BookIssue \<Rightarrow> bool) \<Rightarrow> BookIssue option" where
  "bookIssue_findFirst s wh =
     (case sort_key (\<lambda>i. - issued_date i) (filter wh (bookIssues s)) of
        [] \<Rightarrow> None
      | i # _ \<Rightarrow> Some i)"

definition returnBook ::
  "store \<Rightarrow> date \<Rightarrow> string option \<Rightarrow> string option \<Rightarrow> store \<times> (http_error + BookIssue)" where
  "returnBook s now iid bid =
     (if \<not> truthy iid \<and> \<not> truthy bid
      then (s, Inl (BadRequest ''Provide issue_id or book_id''))
      else
        (case bookIssue_findFirst s (return_where iid bid) of
           None \<Rightarrow> (s, Inl (NotFound ''Active issue not found''))
         | Some issue \<Rightarrow>
             asyncHandler (transaction
               (\<lambda>tx. case bookIssue_update tx (issue_id issue) (\<lambda>i. i\<lparr>returned_date := Some now\<rparr>) of
                        Inl e \<Rightarrow> Inl e
                      | Inr (tx1, updated) \<Rightarrow>
                          (case book_update tx1 (issue_book_id issue) (\<lambda>b. b\<lparr>status := AVAILABLE\<rparr>) of
                             Inl e \<Rightarrow> Inl e
                           | Inr tx2 \<Rightarrow> Inr (tx2, updated))) s)))"

section \<open>Circulation: sequences of operations\<close>

text \<open>
  A circulation operation together with what the store supplies for it: the key of the
  new issue and the clock value.
\<close>

datatype circ_op =
    IssueOp string date string string date
  | ReturnOp date "string option" "string option"

fun circ_step :: "store \<Rightarrow> circ_op \<Rightarrow> store" where
  "circ_step s (IssueOp new_id now bid uid due) = fst (issueBook s new_id now bid uid due)"
| "circ_step s (ReturnOp now iid bid) = fst (returnBook s now iid bid)"

fun run_ops :: "store \<Rightarrow> circ_op list \<Rightarrow> store" where
  "run_ops s [] = s"
| "run_ops s (x # xs) = run_ops (circ_step s x) xs"

text \<open>The open issues of a book, and how many there are.\<close>

definition open_issues :: "store \<Rightarrow> string \<Rightarrow> BookIssue list" where
  "open_issues s bid =
     filter (\<lambda>i. issue_book_id i = bid \<and> returned_date i = None) (bookIssues s)"

definition open_count :: "store \<Rightarrow> string \<Rightarrow> nat" where
  "open_count s bid = length (open_issues s bid)"

text \<open>
  A consistent store: the keys of books and of issues are unique, no book has two open
  issues, and a book is ISSUED exactly when it has an open issue.
\<close>

definition consistent :: "store \<Rightarrow> bool" where
  "consistent s =
     (distinct (map book_id (books s)) \<and>
      distinct (map issue_id (bookIssues s)) \<and>
      distinct (map issue_book_id (filter (\<lambda>i. returned_date i = None) (bookIssues s))) \<and>
      list_all (\<lambda>b. (status b = ISSUED) = (open_count s (book_id b) = 1)) (books s))"

section \<open>Payment: the collection URI (\<^verbatim>\<open>src/src/utils/upi.ts\<close>)\<close>

text \<open>
  The serializer of \<^verbatim>\<open>URLSearchParams\<close> (application/x-www-form-urlencoded): letters,
  digits and \<^verbatim>\<open>* - . _\<close> stay, a space becomes \<^verbatim>\<open>+\<close>, every other byte becomes
  \<^verbatim>\<open>%XX\<close> with upper-case hexadecimal digits.
\<close>

definition unreserved :: "char \<Rightarrow> bool" where
  "unreserved c =
     (c \<in> set ''ABCDEFGHIJKLMNOPQRSTUVWXYZabcdefghijklmnopqrstuvwxyz0123456789*-._'')"

definition hex_digit :: "nat \<Rightarrow> char" where
  "hex_digit n = ''0123456789ABCDEF'' ! (n mod 16)"

definition urlencoded_byte :: "char \<Rightarrow> string" where
  "urlencoded_byte c =
     (if c = CHR '' '' then ''+''
      else if unreserved c then [c]
      else [CHR ''%'', hex_digit (of_char c div 16), hex_digit (of_char c mod 16)])"

definition urlencode :: "string \<Rightarrow> string" where
  "urlencode str = concat (map urlencoded_byte str)"

text \<open>The decimal digits of a natural number.\<close>

definition digit_char :: "nat \<Rightarrow> char" where
  "digit_char n = ''0123456789'' ! (n mod 10)"

fun digits :: "nat \<Rightarrow> string" where
  "digits n = (if n < 10 then [digit_char n] else digits (n div 10) @ [digit_char (n mod 10)])"

text \<open>The number a string of decimal digits denotes.\<close>

definition decimal_value :: "string \<Rightarrow> nat" where
  "decimal_value str = foldl (\<lambda>a c. 10 * a + (of_char c - 48)) 0 str"

text \<open>
  \<^verbatim>\<open>amount.toFixed(2)\<close> on a number whose value is an integer of magnitude below
  \<open>10 ^ 21\<close>: the integer, a point and two zeros. (From \<open>10 ^ 21\<close> on JavaScript
  answers in exponent notation, which is not modelled.)
\<close>

definition toFixed2 :: "int \<Rightarrow> string" where
  "toFixed2 n = (if n < 0 then ''-'' else []) @ digits (nat \<bar>n\<bar>) @ ''.00''"

record UpiParams =
  payeeVpa :: string
  payeeName :: string
  amount :: int
  transactionNote :: string
  transactionRef :: string

text \<open>
  \<^verbatim>\<open>searchParams.set\<close> on a URL without a query appends the pair; \<open>toString\<close> writes
  the pairs in that order, joined by \<^verbatim>\<open>&\<close>, behind \<^verbatim>\<open>upi://pay?\<close>.
\<close>

fun serialize_params :: "(string \<times> string) list \<Rightarrow> string" where
  "serialize_params [] = []"
| "serialize_params [(k, v)] = urlencode k @ ''='' @ urlencode v"
| "serialize_params ((k, v) # rest) = urlencode k @ ''='' @ urlencode v @ ''&'' @ serialize_params rest"

definition buildUpiPayUri :: "UpiParams \<Rightarrow> string" where
  "buildUpiPayUri params =
     ''upi://pay?'' @ serialize_params
       [(''pa'', payeeVpa params),
        (''pn'', payeeName params),
        (''am'', toFixed2 (amount params)),
        (''cu'', ''INR''),
        (''tn'', transactionNote params),
        (''tr'', transactionRef params)]"

section \<open>Payment: \<^verbatim>\<open>POST /payment/initiate\<close>\<close>

text \<open>The two settings of \<^verbatim>\<open>env\<close> the payment router reads.\<close>

record env =
  UPI_VPA :: string
  UPI_PAYEE_NAME :: string

text \<open>
  Modelled from the spec: the column defaults of \<^verbatim>\<open>Payment\<close> are in the schema, which
  is not among the sources. For
  \<^verbatim>\<open>payment.create({ data: { user_id, print_id, payment_method, payment_status } })\<close>
  the store supplies the key \<open>new_id\<close> and the clock value \<open>now\<close> for \<open>created_at\<close>;
  a new payment has neither \<open>transaction_id\<close> nor \<open>paid_at\<close> (both nullable, spec
  section 3), and the unique key refuses a key that is already in the table.
\<close>

definition payment_create ::
  "store \<Rightarrow> string \<Rightarrow> date \<Rightarrow> string \<Rightarrow> string \<Rightarrow> PaymentMethod \<Rightarrow> PaymentStatus
     \<Rightarrow> prisma_error + (store \<times> Payment)" where
  "payment_create s new_id now uid pid method st =
     (if new_id \<in> set (map payment_id (payments s)) then Inl UniqueConstraintFailed
      else
        (let created = \<lparr>payment_id = new_id, pay_user_id = uid, pay_print_id = pid,
                         payment_method = method, transaction_id = None, payment_status = st,
                         paid_at = None, pay_created_at = now\<rparr>
         in Inr (s\<lparr>payments := payments s @ [created]\<rparr>, created)))"

record InitiateResponse =
  res_payment_id :: string
  res_payment_method :: PaymentMethod
  res_payment_status :: PaymentStatus
  res_created_at :: date
  upi_uri :: string

definition initiate ::
  "env \<Rightarrow> store \<Rightarrow> string \<Rightarrow> date \<Rightarrow> JwtUser \<Rightarrow> string \<Rightarrow> PaymentMethod
     \<Rightarrow> store \<times> (http_error + InitiateResponse)" where
  "initiate ev s new_id now auth pid method =
     (case printJob_findUnique s pid of
        None \<Rightarrow> (s, Inl (NotFound ''Print job not found''))
      | Some job \<Rightarrow>
          if job_user_id job \<noteq> userId auth then (s, Inl (Forbidden ''Forbidden''))
          else if job_payment_status job = SUCCESS
          then (s, Inl (Conflict ''Print job is already paid''))
          else
            (case payment_create s new_id now (userId auth) pid method PENDING of
               Inl e \<Rightarrow> (s, Inl (InternalError ''Internal server error''))
             | Inr (s', payment) \<Rightarrow>
                 (let upiUri = buildUpiPayUri
                        \<lparr>payeeVpa = UPI_VPA ev,
                         payeeName = UPI_PAYEE_NAME ev,
                         amount = total_cost job,
                         transactionNote = ''Print job '' @ print_id job,
                         transactionRef = payment_id payment\<rparr>
                  in (s', Inr \<lparr>res_payment_id = payment_id payment,
                               res_payment_method = payment_method payment,
                               res_payment_status = payment_status payment,
                               res_created_at = pay_created_at payment,
                               upi_uri = upiUri\<rparr>))))"

section \<open>Payment: \<^verbatim>\<open>POST /payment/verify\<close>\<close>

record VerifyResponse =
  ver_payment_id :: string
  ver_payment_status :: PaymentStatus
  ver_transaction_id :: "string option"
  ver_paid_at :: "date option"

definition verify ::
  "store \<Rightarrow> date \<Rightarrow> JwtUser \<Rightarrow> string \<Rightarrow> string \<Rightarrow> PaymentStatus
     \<Rightarrow> store \<times> (http_error + VerifyResponse)" where
  "verify s now auth pid tid st =
     (case payment_findUnique s pid of
        None \<Rightarrow> (s, Inl (NotFound ''Payment not found''))
      | Some payment \<Rightarrow>
          if pay_user_id payment \<noteq> userId auth then (s, Inl (Forbidden ''Forbidden''))
          else
            (case asyncHandler (transaction
                    (\<lambda>tx. case payment_update tx pid
                                  (\<lambda>p. p\<lparr>transaction_id := Some tid,
                                          payment_status := st,
                                          paid_at := (if st = SUCCESS then Some now else None)\<rparr>) of
                             Inl e \<Rightarrow> Inl e
                           | Inr (tx1, p) \<Rightarrow>
                               (case printJob_update tx1 (pay_print_id payment)
                                       (\<lambda>j. j\<lparr>job_payment_status := st\<rparr>) of
                                  Inl e \<Rightarrow> Inl e
                                | Inr tx2 \<Rightarrow> Inr (tx2, p))) s) of
               (s', Inl e) \<Rightarrow> (s', Inl e)
             | (s', Inr updated) \<Rightarrow>
                 (s', Inr \<lparr>ver_payment_id = payment_id updated,
                           ver_payment_status = payment_status updated,
                           ver_transaction_id = transaction_id updated,
                           ver_paid_at = paid_at updated\<rparr>)))"

section \<open>Payment: \<^verbatim>\<open>GET /payment/status/:id\<close>\<close>

record PrintJobSummary =
  sum_total_cost :: int
  sum_payment_status :: PaymentStatus

text \<open>
  \<^verbatim>\<open>include: { print: true }\<close> joins the parent print job; reading a field of a missing
  parent throws, which \<^verbatim>\<open>asyncHandler\<close> turns into status 500.
\<close>

definition getPaymentStatus ::
  "store \<Rightarrow> JwtUser \<Rightarrow> string \<Rightarrow> store \<times> (http_error + Payment \<times> PrintJobSummary)" where
  "getPaymentStatus s auth paymentId =
     (case payment_findUnique s paymentId of
        None \<Rightarrow> (s, Inl (NotFound ''Payment not found''))
      | Some payment \<Rightarrow>
          (let isOwner = (pay_user_id payment = userId auth);
               isAdmin = (role auth = LIBRARY_ADMIN \<or> role auth = SUPER_ADMIN)
           in if \<not> isOwner \<and> \<not> isAdmin then (s, Inl (Forbidden ''Forbidden''))
              else
                (case printJob_findUnique s (pay_print_id payment) of
                   None \<Rightarrow> (s, Inl (InternalError ''Internal server error''))
                 | Some print \<Rightarrow>
                     (s, Inr (payment,
                              \<lparr>sum_total_cost = total_cost print,
                               sum_payment_status = job_payment_status print\<rparr>)))))"

section \<open>Example stores\<close>

definition book1 :: Book where
  "book1 = \<lparr>book_id = ''B1'', book_name = ''Dune'', author_name = ''Herbert'',
            category = ''SF'', publication_year = 1965, library_location = ''A1'',
            status = AVAILABLE, book_created_at = 0\<rparr>"

definition book2 :: Book where
  "book2 = \<lparr>book_id = ''B2'', book_name = ''Emma'', author_name = ''Austen'',
            category = ''Novel'', publication_year = 1815, library_location = ''A2'',
            status = ISSUED, book_created_at = 0\<rparr>"

definition user1 :: User where
  "user1 = \<lparr>user_id = ''U1'', user_name = ''Ann'', email = ''ann@x.org'', password = None,
            user_role = USER, user_created_at = 0, last_login = None\<rparr>"

definition user2 :: User where
  "user2 = \<lparr>user_id = ''U2'', user_name = ''Bob'', email = ''bob@x.org'', password = None,
            user_role = USER, user_created_at = 0, last_login = None\<rparr>"

definition issue2 :: BookIssue where
  "issue2 = \<lparr>issue_id = ''I2'', issue_book_id = ''B2'', issue_user_id = ''U2'',
             issued_date = 10, due_date = 500, returned_date = None\<rparr>"

definition store0 :: store where
  "store0 = \<lparr>books = [book1, book2], users = [user1, user2], bookIssues = [issue2],
             printJobs = [], payments = []\<rparr>"

definition ops0 :: "circ_op list" where
  "ops0 = [IssueOp ''I1'' 20 ''B1'' ''U1'' 600, ReturnOp 30 None (Some ''B2'')]"

definition job1 :: PrintJob where
  "job1 = \<lparr>print_id = ''P1'', job_user_id = ''U1'', file_name = ''a.pdf'',
           storage_path = ''1_a.pdf'', total_pages = 10, cost_per_page = 2, total_cost = 20,
           job_payment_status = PENDING, job_created_at = 0\<rparr>"

definition job2 :: PrintJob where
  "job2 = \<lparr>print_id = ''P2'', job_user_id = ''U1'', file_name = ''b.pdf'',
           storage_path = ''2_b.pdf'', total_pages = 3, cost_per_page = 2, total_cost = 6,
           job_payment_status = SUCCESS, job_created_at = 1\<rparr>"

definition pay1 :: Payment where
  "pay1 = \<lparr>payment_id = ''PA1'', pay_user_id = ''U1'', pay_print_id = ''P1'',
           payment_method = UPI, transaction_id = None, payment_status = PENDING,
           paid_at = None, pay_created_at = 5\<rparr>"

definition pstore0 :: store where
  "pstore0 = \<lparr>books = [], users = [user1, user2], bookIssues = [],
              printJobs = [job1, job2], payments = [pay1]\<rparr>"

definition env0 :: env where
  "env0 = \<lparr>UPI_VPA = ''library@upi'', UPI_PAYEE_NAME = ''E-Library''\<rparr>"

definition auth1 :: JwtUser where
  "auth1 = \<lparr>userId = ''U1'', role = USER\<rparr>"

definition auth2 :: JwtUser where
  "auth2 = \<lparr>userId = ''U2'', role = USER\<rparr>"

definition admin3 :: JwtUser where
  "admin3 = \<lparr>userId = ''U3'', role = LIBRARY_ADMIN\<rparr>"

section \<open>Evaluation\<close>

text \<open>
  \<open>digits\<close> is unfolded on demand only. The collections below are the definitions a
  concrete call unfolds.
\<close>

declare digits.simps [simp del]

lemmas circ_defs = issueBook_def issueBook_reads_def issueBook_tx_def returnBook_def
      book_findUnique_def user_findUnique_def bookIssue_create_def book_update_def
      bookIssue_update_def bookIssue_findFirst_def return_where_def sel_matches_def truthy_def
      transaction_def asyncHandler_def Let_def

lemmas store0_defs = store0_def book1_def book2_def user1_def user2_def issue2_def

lemmas pay_defs = initiate_def verify_def getPaymentStatus_def payment_findUnique_def
      printJob_findUnique_def payment_create_def payment_update_def printJob_update_def
      transaction_def asyncHandler_def Let_def

lemmas pstore0_defs = pstore0_def job1_def job2_def pay1_def user1_def user2_def env0_def
      auth1_def auth2_def admin3_def

section \<open>Lists of rows and their keys\<close>

lemma find_Some_mem: "find P xs = Some x \<Longrightarrow> x \<in> set xs \<and> P x"
  by (induction xs) (auto split: if_splits)

lemma find_key_Some:
  "find (\<lambda>x. key x = k) xs = Some y \<Longrightarrow> y \<in> set xs \<and> key y = k"
  by (induction xs) (auto split: if_splits)

lemma find_key_None:
  "(find (\<lambda>x. key x = k) xs = None) = (k \<notin> key ` set xs)"
  by (induction xs) auto

lemma find_key_update:
  assumes "\<And>x. key (f x) = key x"
  shows "find (\<lambda>x. key x = k) (map (\<lambda>x. if key x = k0 then f x else x) xs) =
         (if k = k0 then map_option f (find (\<lambda>x. key x = k0) xs) else find (\<lambda>x. key x = k) xs)"
  by (induction xs) (auto simp: assms)

lemma distinct_key_unique:
  "distinct (map key xs) \<Longrightarrow> x \<in> set xs \<Longrightarrow> y \<in> set xs \<Longrightarrow> key x = key y \<Longrightarrow> x = y"
  by (auto simp: distinct_map dest: inj_onD)

lemma count_key_distinct:
  "distinct (map f xs) \<Longrightarrow> length (filter (\<lambda>x. f x = k) xs) = (if k \<in> f ` set xs then 1 else 0)"
  by (induction xs) auto

lemma map_key_update:
  assumes "\<And>x. key (g x) = key x"
  shows "map key (map (\<lambda>x. if P x then g x else x) xs) = map key xs"
  by (induction xs) (simp_all add: assms)

lemma sort_key_Cons:
  assumes "sort_key f xs = y # ys"
  shows "y \<in> set xs \<and> (\<forall>x \<in> set xs. f y \<le> f x)"
proof -
  have s: "set xs = set (y # ys)"
    using assms set_sort [of f xs] by simp
  have "sorted (map f (y # ys))"
    using assms sorted_sort_key [of f xs] by simp
  then have "\<forall>x \<in> set ys. f y \<le> f x" by simp
  with s show ?thesis by auto
qed

section \<open>Queries\<close>

lemma findFirst_Some:
  assumes "bookIssue_findFirst s wh = Some r"
  shows "r \<in> set (bookIssues s) \<and> wh r \<and>
         (\<forall>j \<in> set (bookIssues s). wh j \<longrightarrow> issued_date j \<le> issued_date r)"
proof -
  from assms obtain ys where
    "sort_key (\<lambda>i. - issued_date i) (filter wh (bookIssues s)) = r # ys"
    by (auto simp: bookIssue_findFirst_def split: list.splits)
  from sort_key_Cons [OF this] show ?thesis by auto
qed

lemma findFirst_None:
  "(bookIssue_findFirst s wh = None) = (\<forall>j \<in> set (bookIssues s). \<not> wh j)"
proof -
  have "(sort_key (\<lambda>i. - issued_date i) (filter wh (bookIssues s)) = []) =
        (filter wh (bookIssues s) = [])"
    using length_sort [of "\<lambda>i. - issued_date i" "filter wh (bookIssues s)"]
    by (metis length_0_conv)
  then show ?thesis
    by (auto simp: bookIssue_findFirst_def filter_empty_conv split: list.splits)
qed

lemma open_issues_alt:
  "open_issues s bid = filter (\<lambda>i. issue_book_id i = bid) (filter (\<lambda>i. returned_date i = None) (bookIssues s))"
  by (simp add: open_issues_def conj_commute)

lemma open_count_distinct:
  assumes "distinct (map issue_book_id (filter (\<lambda>i. returned_date i = None) (bookIssues s)))"
  shows "open_count s bid =
     (if bid \<in> issue_book_id ` set (filter (\<lambda>i. returned_date i = None) (bookIssues s)) then 1 else 0)"
  unfolding open_count_def open_issues_alt using count_key_distinct [OF assms] by simp

section \<open>Issuing a book: which error, and what a failure leaves behind\<close>

text \<open>
  C9. When the book exists with a status other than AVAILABLE and the borrower does not
  exist, \<open>issueBook\<close> answers Conflict, not NotFound: the availability check comes before
  the lookup of the user. The store is left as it was.
\<close>

theorem issueBook_conflict_before_user:
  assumes "book_findUnique s bid = Some book"
    and "status book \<noteq> AVAILABLE"
    and "user_findUnique s uid = None"
  shows "issueBook s new_id now bid uid due = (s, Inl (Conflict ''Book is not available''))"
  using assms by (simp add: issueBook_def issueBook_reads_def)

theorem issueBook_conflict_before_user_witness:
  "book_findUnique store0 ''B2'' = Some book2 \<and> status book2 \<noteq> AVAILABLE
   \<and> user_findUnique store0 ''U9'' = None
   \<and> issueBook store0 ''I3'' 20 ''B2'' ''U9'' 600 = (store0, Inl (Conflict ''Book is not available''))"
proof -
  have a: "book_findUnique store0 ''B2'' = Some book2"
    by (simp add: book_findUnique_def store0_def book1_def book2_def)
  have b: "status book2 \<noteq> AVAILABLE"
    by (simp add: book2_def)
  have c: "user_findUnique store0 ''U9'' = None"
    by (simp add: user_findUnique_def store0_def user1_def user2_def)
  show ?thesis
    using a b c issueBook_conflict_before_user [OF a b c, of "''I3''" 20 600] by simp
qed

lemma issueBook_tx_rollback:
  "snd (issueBook_tx s new_id now bid uid due) = Inl e \<Longrightarrow>
   fst (issueBook_tx s new_id now bid uid due) = s"
  by (auto simp: issueBook_tx_def asyncHandler_def transaction_def
      split: sum.splits prod.splits)

text \<open>
  C2 as it is worded does not hold: "if the book does not exist or the user does not
  exist the result is NotFound" fails for some calls; in \<open>store0\<close> the book B2 is ISSUED and there
  is no user U9, and the answer is Conflict.
\<close>

theorem issueBook_missing_user_counterexample:
  "\<not> (\<forall>s new_id now bid uid due.
        book_findUnique s bid = None \<or> user_findUnique s uid = None \<longrightarrow>
        (\<exists>m. snd (issueBook s new_id now bid uid due) = Inl (NotFound m)))"
proof
  assume h: "\<forall>s new_id now bid uid due.
        book_findUnique s bid = None \<or> user_findUnique s uid = None \<longrightarrow>
        (\<exists>m. snd (issueBook s new_id now bid uid due) = Inl (NotFound m))"
  have u: "user_findUnique store0 ''U9'' = None"
    by (simp add: user_findUnique_def store0_def user1_def user2_def)
  have r: "snd (issueBook store0 ''I3'' 20 ''B2'' ''U9'' 600) = Inl (Conflict ''Book is not available'')"
    by (simp add: issueBook_def issueBook_reads_def book_findUnique_def store0_def
        book1_def book2_def)
  from h u have "\<exists>m. snd (issueBook store0 ''I3'' 20 ''B2'' ''U9'' 600) = Inl (NotFound m)"
    by blast
  with r show False by simp
qed

text \<open>
  C2, as the handler orders its checks. A missing book gives NotFound; a book that exists
  with a status other than AVAILABLE gives Conflict, whoever the borrower is; an AVAILABLE
  book with a missing borrower gives NotFound; and whenever \<open>issueBook\<close> fails, with any
  error, the store is the one it started from: no issue was created and no status changed.
\<close>

theorem issueBook_failures:
  "(book_findUnique s bid = None \<longrightarrow>
      snd (issueBook s new_id now bid uid due) = Inl (NotFound ''Book not found'')) \<and>
   (\<forall>book. book_findUnique s bid = Some book \<and> status book \<noteq> AVAILABLE \<longrightarrow>
      snd (issueBook s new_id now bid uid due) = Inl (Conflict ''Book is not available'')) \<and>
   (\<forall>book. book_findUnique s bid = Some book \<and> status book = AVAILABLE \<and>
      user_findUnique s uid = None \<longrightarrow>
      snd (issueBook s new_id now bid uid due) = Inl (NotFound ''User not found'')) \<and>
   (\<forall>e. snd (issueBook s new_id now bid uid due) = Inl e \<longrightarrow>
      fst (issueBook s new_id now bid uid due) = s)"
proof (intro conjI allI impI)
  assume "book_findUnique s bid = None"
  then show "snd (issueBook s new_id now bid uid due) = Inl (NotFound ''Book not found'')"
    by (simp add: issueBook_def issueBook_reads_def)
next
  fix book
  assume "book_findUnique s bid = Some book \<and> status book \<noteq> AVAILABLE"
  then show "snd (issueBook s new_id now bid uid due) = Inl (Conflict ''Book is not available'')"
    by (simp add: issueBook_def issueBook_reads_def)
next
  fix book
  assume "book_findUnique s bid = Some book \<and> status book = AVAILABLE \<and>
      user_findUnique s uid = None"
  then show "snd (issueBook s new_id now bid uid due) = Inl (NotFound ''User not found'')"
    by (simp add: issueBook_def issueBook_reads_def)
next
  fix e
  assume a: "snd (issueBook s new_id now bid uid due) = Inl e"
  show "fst (issueBook s new_id now bid uid due) = s"
  proof (cases "issueBook_reads s bid uid")
    case None
    with a show ?thesis
      by (simp add: issueBook_def issueBook_tx_rollback)
  next
    case (Some e')
    then show ?thesis by (simp add: issueBook_def)
  qed
qed

theorem issueBook_failures_witness:
  "book_findUnique store0 ''B9'' = None \<and>
   snd (issueBook store0 ''I3'' 20 ''B9'' ''U1'' 600) = Inl (NotFound ''Book not found'') \<and>
   book_findUnique store0 ''B2'' = Some book2 \<and> status book2 \<noteq> AVAILABLE \<and>
   snd (issueBook store0 ''I3'' 20 ''B2'' ''U1'' 600) = Inl (Conflict ''Book is not available'') \<and>
   book_findUnique store0 ''B1'' = Some book1 \<and> status book1 = AVAILABLE \<and>
   user_findUnique store0 ''U9'' = None \<and>
   snd (issueBook store0 ''I3'' 20 ''B1'' ''U9'' 600) = Inl (NotFound ''User not found'') \<and>
   fst (issueBook store0 ''I3'' 20 ''B1'' ''U9'' 600) = store0"
proof -
  have a: "book_findUnique store0 ''B9'' = None"
    by (simp add: book_findUnique_def store0_def book1_def book2_def)
  have b: "book_findUnique store0 ''B2'' = Some book2" "status book2 \<noteq> AVAILABLE"
    by (simp_all add: book_findUnique_def store0_def book1_def book2_def)
  have c: "book_findUnique store0 ''B1'' = Some book1" "status book1 = AVAILABLE"
    "user_findUnique store0 ''U9'' = None"
    by (simp_all add: book_findUnique_def user_findUnique_def store0_def book1_def book2_def
        user1_def user2_def)
  show ?thesis
    using a b c
      issueBook_failures [of store0 "''B9''" "''I3''" 20 "''U1''" 600]
      issueBook_failures [of store0 "''B2''" "''I3''" 20 "''U1''" 600]
      issueBook_failures [of store0 "''B1''" "''I3''" 20 "''U9''" 600]
    by blast
qed

section \<open>Returning a book\<close>

lemma returnBook_success:
  assumes t: "truthy iid \<or> truthy bid"
    and f: "bookIssue_findFirst s (return_where iid bid) = Some i"
    and b: "\<exists>b \<in> set (books s). book_id b = issue_book_id i"
  shows "\<exists>row. find (\<lambda>j. issue_id j = issue_id i) (bookIssues s) = Some row \<and>
     returnBook s now iid bid =
       (s\<lparr>bookIssues := map (\<lambda>j. if issue_id j = issue_id i then j\<lparr>returned_date := Some now\<rparr> else j)
                            (bookIssues s),
          books := map (\<lambda>b. if book_id b = issue_book_id i then b\<lparr>status := AVAILABLE\<rparr> else b)
                       (books s)\<rparr>,
        Inr (row\<lparr>returned_date := Some now\<rparr>))"
proof -
  from findFirst_Some [OF f] have "i \<in> set (bookIssues s)" by simp
  then have "find (\<lambda>j. issue_id j = issue_id i) (bookIssues s) \<noteq> None"
    by (auto simp: find_key_None)
  then obtain row where r: "find (\<lambda>j. issue_id j = issue_id i) (bookIssues s) = Some row"
    by auto
  show ?thesis
    using t f b r
    by (simp add: returnBook_def asyncHandler_def transaction_def bookIssue_update_def
        book_update_def)
qed

lemma returnBook_book_missing:
  assumes t: "truthy iid \<or> truthy bid"
    and f: "bookIssue_findFirst s (return_where iid bid) = Some i"
    and b: "\<not> (\<exists>b \<in> set (books s). book_id b = issue_book_id i)"
  shows "returnBook s now iid bid = (s, Inl (InternalError ''Internal server error''))"
  using t f b
  by (simp add: returnBook_def asyncHandler_def transaction_def bookIssue_update_def
      book_update_def split: option.splits)

text \<open>
  C3. Without a truthy selector \<open>returnBook\<close> answers BadRequest. With one, it answers
  NotFound when no open issue matches the selectors; it succeeds when one matches and the
  books the issues refer to exist; and whenever it succeeds, some open issue \<open>i\<close> matching
  the selectors, with an \<open>issued_date\<close> no earlier than that of any other match, was
  chosen: the rows with its key now carry \<open>returned_date = now\<close>, the row returned is
  one of them, the book whose key is \<open>issue_book_id i\<close> (which exists) is AVAILABLE, and
  nothing else in the store has changed.
\<close>

theorem returnBook_spec:
  "(\<not> truthy iid \<and> \<not> truthy bid \<longrightarrow>
      returnBook s now iid bid = (s, Inl (BadRequest ''Provide issue_id or book_id''))) \<and>
   ((truthy iid \<or> truthy bid) \<and> (\<forall>j \<in> set (bookIssues s). \<not> return_where iid bid j) \<longrightarrow>
      returnBook s now iid bid = (s, Inl (NotFound ''Active issue not found''))) \<and>
   ((truthy iid \<or> truthy bid) \<and> (\<exists>j \<in> set (bookIssues s). return_where iid bid j) \<and>
    (\<forall>j \<in> set (bookIssues s). \<exists>b \<in> set (books s). book_id b = issue_book_id j) \<longrightarrow>
      (\<exists>s' r. returnBook s now iid bid = (s', Inr r))) \<and>
   (\<forall>s' r. returnBook s now iid bid = (s', Inr r) \<longrightarrow>
      (\<exists>i \<in> set (bookIssues s).
         returned_date i = None \<and> sel_matches iid (issue_id i) \<and> sel_matches bid (issue_book_id i) \<and>
         (\<forall>j \<in> set (bookIssues s). return_where iid bid j \<longrightarrow> issued_date j \<le> issued_date i) \<and>
         issue_id r = issue_id i \<and> returned_date r = Some now \<and>
         bookIssues s' =
           map (\<lambda>j. if issue_id j = issue_id i then j\<lparr>returned_date := Some now\<rparr> else j) (bookIssues s) \<and>
         (\<exists>b \<in> set (books s). book_id b = issue_book_id i) \<and>
         books s' =
           map (\<lambda>b. if book_id b = issue_book_id i then b\<lparr>status := AVAILABLE\<rparr> else b) (books s) \<and>
         users s' = users s \<and> printJobs s' = printJobs s \<and> payments s' = payments s))"
proof (intro conjI allI impI)
  assume "\<not> truthy iid \<and> \<not> truthy bid"
  then show "returnBook s now iid bid = (s, Inl (BadRequest ''Provide issue_id or book_id''))"
    by (simp add: returnBook_def)
next
  assume a: "(truthy iid \<or> truthy bid) \<and> (\<forall>j \<in> set (bookIssues s). \<not> return_where iid bid j)"
  then have "bookIssue_findFirst s (return_where iid bid) = None"
    by (simp add: findFirst_None)
  with a show "returnBook s now iid bid = (s, Inl (NotFound ''Active issue not found''))"
    by (auto simp: returnBook_def)
next
  assume a: "(truthy iid \<or> truthy bid) \<and> (\<exists>j \<in> set (bookIssues s). return_where iid bid j) \<and>
    (\<forall>j \<in> set (bookIssues s). \<exists>b \<in> set (books s). book_id b = issue_book_id j)"
  then have "bookIssue_findFirst s (return_where iid bid) \<noteq> None"
    by (simp add: findFirst_None)
  then obtain i where f: "bookIssue_findFirst s (return_where iid bid) = Some i"
    by auto
  from findFirst_Some [OF f] a have "\<exists>b \<in> set (books s). book_id b = issue_book_id i"
    by blast
  from returnBook_success [OF _ f this, of now] a
  show "\<exists>s' r. returnBook s now iid bid = (s', Inr r)"
    by blast
next
  fix s' r
  assume ok: "returnBook s now iid bid = (s', Inr r)"
  have t: "truthy iid \<or> truthy bid"
    using ok by (auto simp: returnBook_def split: if_splits)
  have "bookIssue_findFirst s (return_where iid bid) \<noteq> None"
  proof
    assume "bookIssue_findFirst s (return_where iid bid) = None"
    with t have "returnBook s now iid bid = (s, Inl (NotFound ''Active issue not found''))"
      by (auto simp: returnBook_def)
    with ok show False by simp
  qed
  then obtain i where f: "bookIssue_findFirst s (return_where iid bid) = Some i"
    by auto
  have b: "\<exists>b \<in> set (books s). book_id b = issue_book_id i"
    using returnBook_book_missing [OF t f, of now] ok by auto
  from returnBook_success [OF t f b, of now] ok obtain row where
    row: "find (\<lambda>j. issue_id j = issue_id i) (bookIssues s) = Some row"
    and s': "s' = s\<lparr>bookIssues := map (\<lambda>j. if issue_id j = issue_id i then j\<lparr>returned_date := Some now\<rparr> else j)
                            (bookIssues s),
          books := map (\<lambda>b. if book_id b = issue_book_id i then b\<lparr>status := AVAILABLE\<rparr> else b)
                       (books s)\<rparr>"
    and r: "r = row\<lparr>returned_date := Some now\<rparr>"
    by auto
  from find_key_Some [OF row] have rid: "issue_id r = issue_id i"
    by (simp add: r)
  from findFirst_Some [OF f] have i: "i \<in> set (bookIssues s)" "return_where iid bid i"
    "\<forall>j \<in> set (bookIssues s). return_where iid bid j \<longrightarrow> issued_date j \<le> issued_date i"
    by simp_all
  show "\<exists>i \<in> set (bookIssues s).
         returned_date i = None \<and> sel_matches iid (issue_id i) \<and> sel_matches bid (issue_book_id i) \<and>
         (\<forall>j \<in> set (bookIssues s). return_where iid bid j \<longrightarrow> issued_date j \<le> issued_date i) \<and>
         issue_id r = issue_id i \<and> returned_date r = Some now \<and>
         bookIssues s' =
           map (\<lambda>j. if issue_id j = issue_id i then j\<lparr>returned_date := Some now\<rparr> else j) (bookIssues s) \<and>
         (\<exists>b \<in> set (books s). book_id b = issue_book_id i) \<and>
         books s' =
           map (\<lambda>b. if book_id b = issue_book_id i then b\<lparr>status := AVAILABLE\<rparr> else b) (books s) \<and>
         users s' = users s \<and> printJobs s' = printJobs s \<and> payments s' = payments s"
    apply (rule bexI [OF _ i(1)])
    using i(2,3) rid b
    apply (simp add: return_where_def s' r)
    done
qed

theorem returnBook_spec_witness:
  "\<not> truthy None \<and>
   returnBook store0 30 None None = (store0, Inl (BadRequest ''Provide issue_id or book_id'')) \<and>
   truthy (Some ''I9'') \<and>
   returnBook store0 30 (Some ''I9'') None = (store0, Inl (NotFound ''Active issue not found'')) \<and>
   truthy (Some ''B2'') \<and>
   (\<exists>s' r. returnBook store0 30 None (Some ''B2'') = (s', Inr r)) \<and>
   returnBook store0 30 None (Some ''B2'') =
     (store0\<lparr>bookIssues := [issue2\<lparr>returned_date := Some 30\<rparr>],
             books := [book1, book2\<lparr>status := AVAILABLE\<rparr>]\<rparr>,
      Inr (issue2\<lparr>returned_date := Some 30\<rparr>)) \<and>
   (\<exists>i \<in> set (bookIssues store0).
      issue_id i = ''I2'' \<and> issue_book_id i = ''B2'' \<and> returned_date i = None \<and>
      books (store0\<lparr>bookIssues := [issue2\<lparr>returned_date := Some 30\<rparr>],
                    books := [book1, book2\<lparr>status := AVAILABLE\<rparr>]\<rparr>) =
        map (\<lambda>b. if book_id b = issue_book_id i then b\<lparr>status := AVAILABLE\<rparr> else b) (books store0))"
proof -
  have t: "\<not> truthy None" "truthy (Some ''I9'')" "truthy (Some ''B2'')"
    by (simp_all add: truthy_def)
  have n: "\<forall>j \<in> set (bookIssues store0). \<not> return_where (Some ''I9'') None j"
    by (simp add: store0_defs return_where_def sel_matches_def)
  have m: "\<exists>j \<in> set (bookIssues store0). return_where None (Some ''B2'') j"
    by (simp add: store0_defs return_where_def sel_matches_def)
  have b: "\<forall>j \<in> set (bookIssues store0). \<exists>b \<in> set (books store0). book_id b = issue_book_id j"
    by (simp add: store0_defs)
  have e: "returnBook store0 30 None (Some ''B2'') =
     (store0\<lparr>bookIssues := [issue2\<lparr>returned_date := Some 30\<rparr>],
             books := [book1, book2\<lparr>status := AVAILABLE\<rparr>]\<rparr>,
      Inr (issue2\<lparr>returned_date := Some 30\<rparr>))"
    by (simp add: circ_defs store0_defs)
  note a1 = returnBook_spec [where iid = None and bid = None and s = store0 and now = 30]
  note a2 = returnBook_spec [where iid = "Some ''I9''" and bid = None and s = store0 and now = 30]
  note a3 = returnBook_spec [where iid = None and bid = "Some ''B2''" and s = store0 and now = 30]
  have c1: "returnBook store0 30 None None = (store0, Inl (BadRequest ''Provide issue_id or book_id''))"
    using a1 t by blast
  have c2: "returnBook store0 30 (Some ''I9'') None = (store0, Inl (NotFound ''Active issue not found''))"
    using a2 t n by blast
  have c3: "\<exists>s' r. returnBook store0 30 None (Some ''B2'') = (s', Inr r)"
    using a3 t m b by blast
  have c4: "\<exists>i \<in> set (bookIssues store0).
      issue_id i = ''I2'' \<and> issue_book_id i = ''B2'' \<and> returned_date i = None \<and>
      books (store0\<lparr>bookIssues := [issue2\<lparr>returned_date := Some 30\<rparr>],
                    books := [book1, book2\<lparr>status := AVAILABLE\<rparr>]\<rparr>) =
        map (\<lambda>b. if book_id b = issue_book_id i then b\<lparr>status := AVAILABLE\<rparr> else b) (books store0)"
    by (simp add: store0_defs)
  show ?thesis
    using t c1 c2 c3 c4 e by blast
qed

text \<open>
  C10. With both selectors given they are combined conjunctively: when the issue with key
  \<open>iid\<close> belongs to another book than \<open>bid\<close>, no row matches, the answer is NotFound
  and the store is left as it was. (Keys of issues are unique.)
\<close>

theorem returnBook_selectors_conjunctive:
  assumes "distinct (map issue_id (bookIssues s))"
    and "i \<in> set (bookIssues s)"
    and "issue_id i = iid" and "iid \<noteq> []" and "bid \<noteq> []"
    and "issue_book_id i \<noteq> bid"
  shows "returnBook s now (Some iid) (Some bid) = (s, Inl (NotFound ''Active issue not found''))"
proof -
  have "\<And>j. j \<in> set (bookIssues s) \<Longrightarrow> issue_id j = iid \<Longrightarrow> j = i"
    using distinct_key_unique [OF assms(1) _ assms(2)] assms(3) by simp
  then have "\<forall>j \<in> set (bookIssues s). \<not> return_where (Some iid) (Some bid) j"
    using assms(4,5,6) by (auto simp: return_where_def sel_matches_def)
  then have "bookIssue_findFirst s (return_where (Some iid) (Some bid)) = None"
    by (simp add: findFirst_None)
  then show ?thesis
    using assms(4) by (simp add: returnBook_def truthy_def)
qed

theorem returnBook_selectors_conjunctive_witness:
  "distinct (map issue_id (bookIssues store0)) \<and> issue2 \<in> set (bookIssues store0) \<and>
   issue_id issue2 = ''I2'' \<and> issue_book_id issue2 \<noteq> ''B1'' \<and>
   returnBook store0 30 (Some ''I2'') (Some ''B1'') =
     (store0, Inl (NotFound ''Active issue not found''))"
proof -
  have a: "distinct (map issue_id (bookIssues store0))" "issue2 \<in> set (bookIssues store0)"
    "issue_id issue2 = ''I2''" "''I2'' \<noteq> []" "''B1'' \<noteq> []" "issue_book_id issue2 \<noteq> ''B1''"
    by (simp_all add: store0_defs)
  show ?thesis
    using a returnBook_selectors_conjunctive [OF a, of 30] by simp
qed

section \<open>The circulation invariant\<close>

lemma issueBook_cases:
  "fst (issueBook s new_id now bid uid due) = s \<or>
   (\<exists>book. book_findUnique s bid = Some book \<and> status book = AVAILABLE \<and>
      new_id \<notin> set (map issue_id (bookIssues s)) \<and>
      fst (issueBook s new_id now bid uid due) =
        s\<lparr>bookIssues := bookIssues s @
             [\<lparr>issue_id = new_id, issue_book_id = bid, issue_user_id = uid,
               issued_date = now, due_date = due, returned_date = None\<rparr>],
           books := map (\<lambda>b. if book_id b = bid then b\<lparr>status := ISSUED\<rparr> else b) (books s)\<rparr>)"
  by (auto simp: issueBook_def issueBook_reads_def issueBook_tx_def asyncHandler_def
      transaction_def bookIssue_create_def book_update_def Let_def book_findUnique_def
      split: option.splits if_splits sum.splits prod.splits dest: find_Some_mem)

lemma returnBook_cases:
  "fst (returnBook s now iid bid) = s \<or>
   (\<exists>r \<in> set (bookIssues s). returned_date r = None \<and>
      (\<exists>b \<in> set (books s). book_id b = issue_book_id r) \<and>
      fst (returnBook s now iid bid) =
        s\<lparr>bookIssues := map (\<lambda>i. if issue_id i = issue_id r then i\<lparr>returned_date := Some now\<rparr> else i)
                             (bookIssues s),
           books := map (\<lambda>b. if book_id b = issue_book_id r then b\<lparr>status := AVAILABLE\<rparr> else b) (books s)\<rparr>)"
proof (cases "\<not> truthy iid \<and> \<not> truthy bid")
  case True
  then show ?thesis by (simp add: returnBook_def)
next
  case False
  show ?thesis
  proof (cases "bookIssue_findFirst s (return_where iid bid)")
    case None
    with False show ?thesis by (simp add: returnBook_def)
  next
    case (Some r)
    from findFirst_Some [OF Some] have r: "r \<in> set (bookIssues s)" "returned_date r = None"
      by (auto simp: return_where_def)
    show ?thesis using False Some r
      by (auto simp: returnBook_def asyncHandler_def transaction_def bookIssue_update_def
          book_update_def split: option.splits sum.splits prod.splits if_splits)
  qed
qed

lemma consistent_iff:
  "consistent s =
     (distinct (map book_id (books s)) \<and>
      distinct (map issue_id (bookIssues s)) \<and>
      distinct (map issue_book_id (filter (\<lambda>i. returned_date i = None) (bookIssues s))) \<and>
      (\<forall>b \<in> set (books s). (status b = ISSUED) =
         (book_id b \<in> issue_book_id ` set (filter (\<lambda>i. returned_date i = None) (bookIssues s)))))"
proof -
  have "list_all (\<lambda>b. (status b = ISSUED) = (open_count s (book_id b) = 1)) (books s) =
        (\<forall>b \<in> set (books s). (status b = ISSUED) =
         (book_id b \<in> issue_book_id ` set (filter (\<lambda>i. returned_date i = None) (bookIssues s))))"
    if "distinct (map issue_book_id (filter (\<lambda>i. returned_date i = None) (bookIssues s)))"
    using open_count_distinct [OF that] by (simp add: list_all_iff) blast
  then show ?thesis unfolding consistent_def by blast
qed

lemma consistent_issue:
  assumes c: "consistent s"
    and f: "book_findUnique s bid = Some book"
    and a: "status book = AVAILABLE"
    and n: "new_id \<notin> set (map issue_id (bookIssues s))"
  shows "consistent
     (s\<lparr>bookIssues := bookIssues s @
           [\<lparr>issue_id = new_id, issue_book_id = bid, issue_user_id = uid,
             issued_date = now, due_date = due, returned_date = None\<rparr>],
        books := map (\<lambda>b. if book_id b = bid then b\<lparr>status := ISSUED\<rparr> else b) (books s)\<rparr>)"
proof -
  let ?O = "filter (\<lambda>i. returned_date i = None) (bookIssues s)"
  from c have d1: "distinct (map book_id (books s))"
    and d2: "distinct (map issue_id (bookIssues s))"
    and d3: "distinct (map issue_book_id ?O)"
    and inv: "\<forall>b \<in> set (books s). (status b = ISSUED) = (book_id b \<in> issue_book_id ` set ?O)"
    by (simp_all add: consistent_iff)
  from f have bk: "book \<in> set (books s)" "book_id book = bid"
    using find_Some_mem [of "\<lambda>b. book_id b = bid" "books s" book]
    by (simp_all add: book_findUnique_def)
  with a inv have free: "bid \<notin> issue_book_id ` set ?O"
    by (metis BookStatus.distinct(1))
  have k: "map book_id (map (\<lambda>b. if book_id b = bid then b\<lparr>status := ISSUED\<rparr> else b) (books s))
           = map book_id (books s)"
    by (rule map_key_update) simp
  let ?bs = "map (\<lambda>b. if book_id b = bid then b\<lparr>status := ISSUED\<rparr> else b) (books s)"
  let ?c = "\<lparr>issue_id = new_id, issue_book_id = bid, issue_user_id = uid,
             issued_date = now, due_date = due, returned_date = None\<rparr>"
  let ?s' = "s\<lparr>bookIssues := bookIssues s @ [?c], books := ?bs\<rparr>"
  have sel: "books ?s' = ?bs" "bookIssues ?s' = bookIssues s @ [?c]"
    by simp_all
  have c1: "distinct (map book_id ?bs)"
    using d1 by (simp only: k)
  have c2: "distinct (map issue_id (bookIssues s @ [?c]))"
    using d2 n by simp
  have c3: "distinct (map issue_book_id (filter (\<lambda>i. returned_date i = None) (bookIssues s @ [?c])))"
    using d3 free by simp
  have c4: "\<forall>b \<in> set ?bs. (status b = ISSUED) =
      (book_id b \<in> issue_book_id ` set (filter (\<lambda>i. returned_date i = None) (bookIssues s @ [?c])))"
    using inv by auto
  show ?thesis
    unfolding consistent_iff sel using c1 c2 c3 c4 by blast
qed

lemma filter_open_close:
  "filter (\<lambda>i. returned_date i = None)
     (map (\<lambda>i. if issue_id i = k then i\<lparr>returned_date := Some now\<rparr> else i) xs) =
   filter (\<lambda>i. issue_id i \<noteq> k) (filter (\<lambda>i. returned_date i = None) xs)"
  by (induction xs) auto

lemma consistent_return:
  assumes c: "consistent s"
    and r: "r \<in> set (bookIssues s)"
    and o: "returned_date r = None"
  shows "consistent
     (s\<lparr>bookIssues := map (\<lambda>i. if issue_id i = issue_id r then i\<lparr>returned_date := Some now\<rparr> else i)
                          (bookIssues s),
        books := map (\<lambda>b. if book_id b = issue_book_id r then b\<lparr>status := AVAILABLE\<rparr> else b) (books s)\<rparr>)"
proof -
  let ?O = "filter (\<lambda>i. returned_date i = None) (bookIssues s)"
  let ?upd = "map (\<lambda>i. if issue_id i = issue_id r then i\<lparr>returned_date := Some now\<rparr> else i) (bookIssues s)"
  from c have d1: "distinct (map book_id (books s))"
    and d2: "distinct (map issue_id (bookIssues s))"
    and d3: "distinct (map issue_book_id ?O)"
    and inv: "\<forall>b \<in> set (books s). (status b = ISSUED) = (book_id b \<in> issue_book_id ` set ?O)"
    by (simp_all add: consistent_iff)
  have O': "filter (\<lambda>i. returned_date i = None) ?upd = filter (\<lambda>i. issue_id i \<noteq> issue_id r) ?O"
    by (rule filter_open_close)
  have same: "\<And>i. i \<in> set (bookIssues s) \<Longrightarrow> issue_id i = issue_id r \<Longrightarrow> i = r"
    using d2 r by (meson distinct_map inj_onD)
  have d3': "distinct (map issue_book_id (filter (\<lambda>i. issue_id i \<noteq> issue_id r) ?O))"
    using d3 by (rule distinct_map_filter)
  have inj: "inj_on issue_book_id (set ?O)"
    using d3 by (simp add: distinct_map)
  have rO: "r \<in> set ?O" using r o by simp
  have img: "issue_book_id ` set (filter (\<lambda>i. issue_id i \<noteq> issue_id r) ?O)
             = issue_book_id ` set ?O - {issue_book_id r}"
  proof -
    have "set (filter (\<lambda>i. issue_id i \<noteq> issue_id r) ?O) = set ?O - {r}"
      using same by auto
    then show ?thesis using inj rO
      by (simp add: inj_on_image_set_diff [of issue_book_id "set ?O"])
  qed
  have k1: "map book_id (map (\<lambda>b. if book_id b = issue_book_id r then b\<lparr>status := AVAILABLE\<rparr> else b) (books s))
           = map book_id (books s)"
    by (rule map_key_update) simp
  have k2: "map issue_id ?upd = map issue_id (bookIssues s)"
    by (rule map_key_update) simp
  let ?bs = "map (\<lambda>b. if book_id b = issue_book_id r then b\<lparr>status := AVAILABLE\<rparr> else b) (books s)"
  let ?s' = "s\<lparr>bookIssues := ?upd, books := ?bs\<rparr>"
  have sel: "books ?s' = ?bs" "bookIssues ?s' = ?upd"
    by simp_all
  have c1: "distinct (map book_id ?bs)"
    using d1 by (simp only: k1)
  have c2: "distinct (map issue_id ?upd)"
    using d2 by (simp only: k2)
  have c3: "distinct (map issue_book_id (filter (\<lambda>i. returned_date i = None) ?upd))"
    using d3' by (simp only: O')
  have c4: "\<forall>b \<in> set ?bs. (status b = ISSUED) =
      (book_id b \<in> issue_book_id ` set (filter (\<lambda>i. returned_date i = None) ?upd))"
    unfolding O' img using inv by auto
  show ?thesis
    unfolding consistent_iff sel using c1 c2 c3 c4 by blast
qed

lemma consistent_step: "consistent s \<Longrightarrow> consistent (circ_step s x)"
proof (cases x)
  case (IssueOp new_id now bid uid due)
  assume "consistent s"
  then show ?thesis
    using issueBook_cases [of s new_id now bid uid due] IssueOp
    by (auto simp: consistent_issue)
next
  case (ReturnOp now iid bid)
  assume "consistent s"
  then show ?thesis
    using returnBook_cases [of s now iid bid] ReturnOp
    by (auto simp: consistent_return)
qed

lemma consistent_run: "consistent s \<Longrightarrow> consistent (run_ops s ops)"
  by (induction ops arbitrary: s) (simp_all add: consistent_step)

lemma consistent_store0: "consistent store0"
  by (simp add: consistent_def store0_def book1_def book2_def issue2_def open_count_def
      open_issues_def)

lemma run_ops0:
  "run_ops store0 ops0 =
     \<lparr>books = [book1\<lparr>status := ISSUED\<rparr>, book2\<lparr>status := AVAILABLE\<rparr>],
      users = [user1, user2],
      bookIssues = [issue2\<lparr>returned_date := Some 30\<rparr>,
                    \<lparr>issue_id = ''I1'', issue_book_id = ''B1'', issue_user_id = ''U1'',
                     issued_date = 20, due_date = 600, returned_date = None\<rparr>],
      printJobs = [], payments = []\<rparr>"
  by (simp add: ops0_def store0_def book1_def book2_def user1_def user2_def issue2_def
      issueBook_def issueBook_reads_def issueBook_tx_def returnBook_def
      book_findUnique_def user_findUnique_def bookIssue_create_def book_update_def
      bookIssue_update_def bookIssue_findFirst_def return_where_def sel_matches_def truthy_def
      transaction_def asyncHandler_def Let_def)

text \<open>
  C1. In every store reached from a consistent one by a sequence of \<open>issueBook\<close> and
  \<open>returnBook\<close> calls, each run to its end before the next starts, a book is ISSUED
  exactly when one issue of that book is open, and no book has more than one open issue.
\<close>

theorem circulation_invariant:
  assumes "consistent s0"
  shows "(\<forall>b \<in> set (books (run_ops s0 ops)).
            (status b = ISSUED) = (open_count (run_ops s0 ops) (book_id b) = 1)) \<and>
         (\<forall>bid. open_count (run_ops s0 ops) bid \<le> 1)"
proof -
  let ?s = "run_ops s0 ops"
  have c: "consistent ?s"
    using assms by (rule consistent_run)
  then have d: "distinct (map issue_book_id (filter (\<lambda>i. returned_date i = None) (bookIssues ?s)))"
    by (simp add: consistent_def)
  have "\<forall>bid. open_count ?s bid \<le> 1"
    using open_count_distinct [OF d] by simp
  moreover have "\<forall>b \<in> set (books ?s). (status b = ISSUED) = (open_count ?s (book_id b) = 1)"
    using c by (simp add: consistent_def list_all_iff)
  ultimately show ?thesis by blast
qed

theorem circulation_invariant_witness:
  "consistent store0 \<and>
   status (hd (books (run_ops store0 ops0))) = ISSUED \<and>
   open_count (run_ops store0 ops0) (book_id (hd (books (run_ops store0 ops0)))) = 1 \<and>
   open_count (run_ops store0 ops0) ''B2'' \<le> 1"
proof -
  have m: "hd (books (run_ops store0 ops0)) \<in> set (books (run_ops store0 ops0))"
    by (simp add: run_ops0)
  have i: "status (hd (books (run_ops store0 ops0))) = ISSUED"
    by (simp add: run_ops0 book1_def)
  show ?thesis
    using circulation_invariant [OF consistent_store0, of ops0] m i consistent_store0 by blast
qed

text \<open>
  The transaction of \<open>issueBook\<close> does not look at the status of the book: with a fresh
  key and an existing book it commits and adds an open issue, whatever the status is.
\<close>

lemma issueBook_tx_ignores_status:
  assumes "new_id \<notin> set (map issue_id (bookIssues s))"
    and "\<exists>b \<in> set (books s). book_id b = bid"
  shows "\<exists>s' r. issueBook_tx s new_id now bid uid due = (s', Inr r) \<and>
           open_count s' bid = Suc (open_count s bid)"
  using assms
  by (simp add: issueBook_tx_def asyncHandler_def transaction_def bookIssue_create_def
      book_update_def Let_def open_count_def open_issues_def)

text \<open>
  C7. Two \<open>issueBook\<close> calls for the same AVAILABLE book, interleaved at the handler's
  \<^verbatim>\<open>await\<close> points: both read the book (and their borrowers) in \<open>store0\<close>, then the
  two transactions run one after the other, each atomically. Both commit, and book B1 ends
  with two open issues. Had the second call read the book after the first commit, it would
  have answered Conflict.
\<close>

theorem issueBook_race_double_issue:
  "issueBook_reads store0 ''B1'' ''U1'' = None \<and>
   issueBook_reads store0 ''B1'' ''U2'' = None \<and>
   (\<exists>s1 r1 s2 r2.
      issueBook_tx store0 ''I1'' 20 ''B1'' ''U1'' 600 = (s1, Inr r1) \<and>
      issueBook_tx s1 ''I3'' 21 ''B1'' ''U2'' 600 = (s2, Inr r2) \<and>
      open_count s2 ''B1'' = 2 \<and>
      issueBook s1 ''I3'' 21 ''B1'' ''U2'' 600 = (s1, Inl (Conflict ''Book is not available'')))"
proof -
  let ?r1 = "\<lparr>issue_id = ''I1'', issue_book_id = ''B1'', issue_user_id = ''U1'',
              issued_date = 20, due_date = 600, returned_date = None\<rparr>"
  let ?r2 = "\<lparr>issue_id = ''I3'', issue_book_id = ''B1'', issue_user_id = ''U2'',
              issued_date = 21, due_date = 600, returned_date = None\<rparr>"
  let ?s1 = "store0\<lparr>bookIssues := [issue2, ?r1], books := [book1\<lparr>status := ISSUED\<rparr>, book2]\<rparr>"
  let ?s2 = "store0\<lparr>bookIssues := [issue2, ?r1, ?r2], books := [book1\<lparr>status := ISSUED\<rparr>, book2]\<rparr>"
  have a: "issueBook_reads store0 ''B1'' ''U1'' = None" "issueBook_reads store0 ''B1'' ''U2'' = None"
    by (simp_all add: circ_defs store0_defs)
  have b: "issueBook_tx store0 ''I1'' 20 ''B1'' ''U1'' 600 = (?s1, Inr ?r1)"
    by (simp add: circ_defs store0_defs)
  have c: "issueBook_tx ?s1 ''I3'' 21 ''B1'' ''U2'' 600 = (?s2, Inr ?r2)"
    by (simp add: circ_defs store0_defs)
  have d: "open_count ?s2 ''B1'' = 2"
    by (simp add: open_count_def open_issues_def store0_defs)
  have e: "issueBook ?s1 ''I3'' 21 ''B1'' ''U2'' 600 = (?s1, Inl (Conflict ''Book is not available''))"
    by (simp add: circ_defs store0_defs)
  show ?thesis
    using a b c d e by blast
qed

section \<open>Verifying a payment\<close>

lemma verify_commit:
  assumes p: "payment_findUnique s pid = Some p"
    and o: "pay_user_id p = userId auth"
    and j: "printJob_findUnique s (pay_print_id p) = Some job"
  shows "verify s now auth pid tid st =
     (s\<lparr>payments := map (\<lambda>q. if payment_id q = pid
                              then q\<lparr>transaction_id := Some tid, payment_status := st,
                                     paid_at := (if st = SUCCESS then Some now else None)\<rparr>
                              else q) (payments s),
        printJobs := map (\<lambda>j. if print_id j = pay_print_id p then j\<lparr>job_payment_status := st\<rparr> else j)
                         (printJobs s)\<rparr>,
      Inr \<lparr>ver_payment_id = pid, ver_payment_status = st, ver_transaction_id = Some tid,
           ver_paid_at = (if st = SUCCESS then Some now else None)\<rparr>)"
proof -
  from p have pf: "find (\<lambda>q. payment_id q = pid) (payments s) = Some p"
    by (simp add: payment_findUnique_def)
  from find_key_Some [OF pf] have pk: "payment_id p = pid" by simp
  from j have "job \<in> set (printJobs s) \<and> print_id job = pay_print_id p"
    using find_key_Some [of print_id "pay_print_id p" "printJobs s" job]
    by (simp add: printJob_findUnique_def)
  then have ex: "\<exists>j \<in> set (printJobs s). print_id j = pay_print_id p" by blast
  show ?thesis
    using p o pf pk ex
    by (simp add: verify_def asyncHandler_def transaction_def payment_update_def
        printJob_update_def)
qed

lemma verify_rollback:
  assumes p: "payment_findUnique s pid = Some p"
    and o: "pay_user_id p = userId auth"
    and j: "printJob_findUnique s (pay_print_id p) = None"
  shows "verify s now auth pid tid st = (s, Inl (InternalError ''Internal server error''))"
proof -
  from p have pf: "find (\<lambda>q. payment_id q = pid) (payments s) = Some p"
    by (simp add: payment_findUnique_def)
  from j have ex: "\<not> (\<exists>j \<in> set (printJobs s). print_id j = pay_print_id p)"
    unfolding printJob_findUnique_def find_key_None by (metis imageI)
  show ?thesis
    using p o pf ex
    by (simp add: verify_def asyncHandler_def transaction_def payment_update_def
        printJob_update_def)
qed

text \<open>
  C4. \<open>verify\<close> called by the owner of the payment: when the parent print job is in the
  store, the call succeeds; afterwards the payment carries the given \<open>transaction_id\<close> and
  status, \<open>paid_at\<close> is \<open>now\<close> for SUCCESS and empty otherwise, the parent print job
  carries the same status, and no other payment, print job or table has changed. When the
  parent is missing the second update throws and the first is not kept either: the store
  is the one the call started from.
\<close>

theorem verify_spec:
  assumes p: "payment_findUnique s pid = Some p"
    and o: "pay_user_id p = userId auth"
  shows "(\<forall>job. printJob_findUnique s (pay_print_id p) = Some job \<longrightarrow>
      (\<exists>s'. verify s now auth pid tid st =
              (s', Inr \<lparr>ver_payment_id = pid, ver_payment_status = st,
                        ver_transaction_id = Some tid,
                        ver_paid_at = (if st = SUCCESS then Some now else None)\<rparr>) \<and>
         payment_findUnique s' pid =
           Some (p\<lparr>transaction_id := Some tid, payment_status := st,
                   paid_at := (if st = SUCCESS then Some now else None)\<rparr>) \<and>
         printJob_findUnique s' (pay_print_id p) = Some (job\<lparr>job_payment_status := st\<rparr>) \<and>
         (\<forall>q. q \<noteq> pid \<longrightarrow> payment_findUnique s' q = payment_findUnique s q) \<and>
         (\<forall>k. k \<noteq> pay_print_id p \<longrightarrow> printJob_findUnique s' k = printJob_findUnique s k) \<and>
         books s' = books s \<and> users s' = users s \<and> bookIssues s' = bookIssues s)) \<and>
    (printJob_findUnique s (pay_print_id p) = None \<longrightarrow>
       verify s now auth pid tid st = (s, Inl (InternalError ''Internal server error'')))"
proof (intro conjI allI impI)
  fix job
  assume j: "printJob_findUnique s (pay_print_id p) = Some job"
  let ?f = "\<lambda>q. q\<lparr>transaction_id := Some tid, payment_status := st,
                     paid_at := (if st = SUCCESS then Some now else None)\<rparr>"
  let ?g = "\<lambda>j. j\<lparr>job_payment_status := st\<rparr>"
  let ?s' = "s\<lparr>payments := map (\<lambda>q. if payment_id q = pid then ?f q else q) (payments s),
        printJobs := map (\<lambda>j. if print_id j = pay_print_id p then ?g j else j) (printJobs s)\<rparr>"
  have pl: "payment_findUnique ?s' q =
            (if q = pid then map_option ?f (payment_findUnique s pid) else payment_findUnique s q)" for q
    unfolding payment_findUnique_def
    using find_key_update [of payment_id ?f q pid "payments s"] by simp
  have jl: "printJob_findUnique ?s' k =
            (if k = pay_print_id p then map_option ?g (printJob_findUnique s (pay_print_id p))
             else printJob_findUnique s k)" for k
    unfolding printJob_findUnique_def
    using find_key_update [of print_id ?g k "pay_print_id p" "printJobs s"] by simp
  show "\<exists>s'. verify s now auth pid tid st =
              (s', Inr \<lparr>ver_payment_id = pid, ver_payment_status = st,
                        ver_transaction_id = Some tid,
                        ver_paid_at = (if st = SUCCESS then Some now else None)\<rparr>) \<and>
         payment_findUnique s' pid = Some (?f p) \<and>
         printJob_findUnique s' (pay_print_id p) = Some (job\<lparr>job_payment_status := st\<rparr>) \<and>
         (\<forall>q. q \<noteq> pid \<longrightarrow> payment_findUnique s' q = payment_findUnique s q) \<and>
         (\<forall>k. k \<noteq> pay_print_id p \<longrightarrow> printJob_findUnique s' k = printJob_findUnique s k) \<and>
         books s' = books s \<and> users s' = users s \<and> bookIssues s' = bookIssues s"
    apply (rule exI [of _ ?s'])
    apply (intro conjI)
           apply (rule verify_commit [OF p o j])
          apply (simp only: pl p) apply simp
         apply (simp only: jl j) apply simp
        apply (simp only: pl) apply simp
       apply (simp only: jl) apply simp
      apply simp_all
    done
next
  assume "printJob_findUnique s (pay_print_id p) = None"
  then show "verify s now auth pid tid st = (s, Inl (InternalError ''Internal server error''))"
    by (rule verify_rollback [OF p o])
qed

theorem verify_spec_witness:
  "payment_findUnique pstore0 ''PA1'' = Some pay1 \<and> pay_user_id pay1 = userId auth1 \<and>
   printJob_findUnique pstore0 (pay_print_id pay1) = Some job1 \<and>
   (\<exists>s'. verify pstore0 9 auth1 ''PA1'' ''TXN123'' SUCCESS =
            (s', Inr \<lparr>ver_payment_id = ''PA1'', ver_payment_status = SUCCESS,
                      ver_transaction_id = Some ''TXN123'', ver_paid_at = Some 9\<rparr>) \<and>
      payment_findUnique s' ''PA1'' =
        Some (pay1\<lparr>transaction_id := Some ''TXN123'', payment_status := SUCCESS, paid_at := Some 9\<rparr>) \<and>
      printJob_findUnique s' ''P1'' = Some (job1\<lparr>job_payment_status := SUCCESS\<rparr>)) \<and>
   (\<exists>s'. verify pstore0 9 auth1 ''PA1'' ''TXN124'' FAILED =
            (s', Inr \<lparr>ver_payment_id = ''PA1'', ver_payment_status = FAILED,
                      ver_transaction_id = Some ''TXN124'', ver_paid_at = None\<rparr>) \<and>
      payment_findUnique s' ''PA1'' =
        Some (pay1\<lparr>transaction_id := Some ''TXN124'', payment_status := FAILED, paid_at := None\<rparr>) \<and>
      printJob_findUnique s' ''P1'' = Some (job1\<lparr>job_payment_status := FAILED\<rparr>))"
proof -
  have p: "payment_findUnique pstore0 ''PA1'' = Some pay1"
    by (simp add: payment_findUnique_def pstore0_defs)
  have o: "pay_user_id pay1 = userId auth1"
    by (simp add: pstore0_defs)
  have j: "printJob_findUnique pstore0 (pay_print_id pay1) = Some job1"
    by (simp add: printJob_findUnique_def pstore0_defs)
  have k: "pay_print_id pay1 = ''P1''"
    by (simp add: pay1_def)
  have ne: "FAILED \<noteq> SUCCESS" by simp
  show ?thesis
    using p o j
      verify_spec [OF p o, of 9 "''TXN123''" SUCCESS]
      verify_spec [OF p o, of 9 "''TXN124''" FAILED]
    unfolding k by (simp add: ne) blast
qed

section \<open>Initiating a payment\<close>

text \<open>
  C5. A print job that exists, belongs to the requester and is already at SUCCESS: the
  answer is Conflict for every payment method, and the store is left as it was (no payment
  row is created).
\<close>

theorem initiate_already_paid:
  assumes "printJob_findUnique s pid = Some job"
    and "job_user_id job = userId auth"
    and "job_payment_status job = SUCCESS"
  shows "initiate ev s new_id now auth pid method =
           (s, Inl (Conflict ''Print job is already paid''))"
  using assms by (simp add: initiate_def)

theorem initiate_already_paid_witness:
  "printJob_findUnique pstore0 ''P2'' = Some job2 \<and> job_user_id job2 = userId auth1 \<and>
   job_payment_status job2 = SUCCESS \<and>
   initiate env0 pstore0 ''PA2'' 7 auth1 ''P2'' UPI =
     (pstore0, Inl (Conflict ''Print job is already paid'')) \<and>
   initiate env0 pstore0 ''PA2'' 7 auth1 ''P2'' GPAY =
     (pstore0, Inl (Conflict ''Print job is already paid''))"
proof -
  have a: "printJob_findUnique pstore0 ''P2'' = Some job2" "job_user_id job2 = userId auth1"
    "job_payment_status job2 = SUCCESS"
    by (simp_all add: printJob_findUnique_def pstore0_defs)
  show ?thesis
    using a initiate_already_paid [OF a, of env0 "''PA2''" 7 UPI]
      initiate_already_paid [OF a, of env0 "''PA2''" 7 GPAY]
    by simp
qed

lemma digit_char_cases:
  assumes "k < 10"
  shows "digit_char k \<in> set ''0123456789'' \<and> of_char (digit_char k) = (48::nat) + k"
proof -
  from assms have "k = 0 \<or> k = 1 \<or> k = 2 \<or> k = 3 \<or> k = 4 \<or> k = 5 \<or> k = 6 \<or> k = 7 \<or> k = 8 \<or> k = 9"
    by arith
  then show ?thesis
    by (elim disjE) (simp_all add: digit_char_def)
qed

lemma digits_chars: "set (digits n) \<subseteq> set ''0123456789''"
proof (induction n rule: digits.induct)
  case (1 n)
  show ?case
  proof (cases "n < 10")
    case True
    then show ?thesis
      using digit_char_cases [of n] by (subst digits.simps) simp
  next
    case False
    have "digit_char (n mod 10) \<in> set ''0123456789''"
      using digit_char_cases [of "n mod 10"] by simp
    with False 1 show ?thesis
      by (subst digits.simps) simp
  qed
qed

lemma decimal_value_snoc:
  "decimal_value (xs @ [c]) = 10 * decimal_value xs + (of_char c - 48)"
  by (simp add: decimal_value_def)

lemma decimal_value_digits: "decimal_value (digits n) = n"
proof (induction n rule: digits.induct)
  case (1 n)
  show ?case
  proof (cases "n < 10")
    case True
    then show ?thesis
      using digit_char_cases [of n] by (subst digits.simps) (simp add: decimal_value_def)
  next
    case False
    have "of_char (digit_char (n mod 10)) = (48::nat) + n mod 10"
      using digit_char_cases [of "n mod 10"] by simp
    with False 1 show ?thesis
      by (subst digits.simps) (simp add: decimal_value_snoc)
  qed
qed

lemma urlencode_append: "urlencode (xs @ ys) = urlencode xs @ urlencode ys"
  by (simp add: urlencode_def)

lemma urlencode_plain:
  "\<forall>c \<in> set xs. unreserved c \<and> c \<noteq> CHR '' '' \<Longrightarrow> urlencode xs = xs"
  by (induction xs) (simp_all add: urlencode_def urlencoded_byte_def)

lemma urlencode_digits: "urlencode (digits n) = digits n"
proof (rule urlencode_plain)
  have "\<forall>c \<in> set ''0123456789''. unreserved c \<and> c \<noteq> CHR '' ''"
    by (simp add: unreserved_def)
  with digits_chars [of n] show "\<forall>c \<in> set (digits n). unreserved c \<and> c \<noteq> CHR '' ''"
    by blast
qed

lemma urlencode_toFixed2: "urlencode (toFixed2 n) = toFixed2 n"
  by (simp add: toFixed2_def urlencode_append urlencode_digits)
     (simp add: urlencode_def urlencoded_byte_def unreserved_def)

lemma urlencode_Cons: "urlencode (c # cs) = urlencoded_byte c @ urlencode cs"
  by (simp add: urlencode_def)

lemma buildUpiPayUri_eq:
  "buildUpiPayUri params =
     ''upi://pay?pa='' @ urlencode (payeeVpa params) @
     ''&pn='' @ urlencode (payeeName params) @
     ''&am='' @ toFixed2 (amount params) @
     ''&cu=INR'' @
     ''&tn='' @ urlencode (transactionNote params) @
     ''&tr='' @ urlencode (transactionRef params)"
proof -
  have k: "urlencode ''pa'' = ''pa''" "urlencode ''pn'' = ''pn''" "urlencode ''am'' = ''am''"
    "urlencode ''cu'' = ''cu''" "urlencode ''tn'' = ''tn''" "urlencode ''tr'' = ''tr''"
    "urlencode ''INR'' = ''INR''"
    by (simp_all add: urlencode_def urlencoded_byte_def unreserved_def)
  show ?thesis
    by (simp add: buildUpiPayUri_def k urlencode_toFixed2)
qed

lemma digits_20: "digits 20 = ''20''"
  by (simp add: digits.simps digit_char_def)

text \<open>
  C6. A successful \<open>initiate\<close> for a print job whose \<open>total_cost\<close> is an integer from
  0 up to (not including) \<open>10 ^ 21\<close>: one payment row is appended, with status PENDING,
  the requester, the print job and the method; the print jobs and all other tables are not
  touched; and the URI returned is made of the payee identifier, the payee name, the
  decimal digits of \<open>total_cost\<close> followed by a point and exactly two zeros, the
  currency code INR, the note \<^verbatim>\<open>Print job\<close> with the key of the print job, and the key
  of the new payment as reference, each URL-encoded, in this order.
\<close>

theorem initiate_success:
  assumes ok: "initiate ev s new_id now auth pid method = (s', Inr res)"
    and j: "printJob_findUnique s pid = Some job"
    and r: "0 \<le> total_cost job" "total_cost job < 10 ^ 21"
  shows "payments s' = payments s @
           [\<lparr>payment_id = new_id, pay_user_id = userId auth, pay_print_id = pid,
             payment_method = method, transaction_id = None, payment_status = PENDING,
             paid_at = None, pay_created_at = now\<rparr>] \<and>
         printJobs s' = printJobs s \<and> books s' = books s \<and> users s' = users s \<and>
         bookIssues s' = bookIssues s \<and>
         res_payment_id res = new_id \<and> res_payment_method res = method \<and>
         res_payment_status res = PENDING \<and> res_created_at res = now \<and>
         upi_uri res =
           ''upi://pay?pa='' @ urlencode (UPI_VPA ev) @
           ''&pn='' @ urlencode (UPI_PAYEE_NAME ev) @
           ''&am='' @ digits (nat (total_cost job)) @ ''.00'' @
           ''&cu=INR'' @
           ''&tn=Print+job+'' @ urlencode pid @
           ''&tr='' @ urlencode new_id \<and>
         set (digits (nat (total_cost job))) \<subseteq> set ''0123456789'' \<and>
         int (decimal_value (digits (nat (total_cost job)))) = total_cost job"
proof -
  from j have pk: "print_id job = pid"
    using find_key_Some [of print_id pid "printJobs s" job] by (simp add: printJob_findUnique_def)
  have tf: "toFixed2 (total_cost job) = digits (nat (total_cost job)) @ ''.00''"
    using r by (simp add: toFixed2_def)
  from ok j have fresh: "new_id \<notin> set (map payment_id (payments s))"
    by (auto simp: initiate_def payment_create_def split: if_splits)
  from ok j fresh have
    s': "s' = s\<lparr>payments := payments s @
           [\<lparr>payment_id = new_id, pay_user_id = userId auth, pay_print_id = pid,
             payment_method = method, transaction_id = None, payment_status = PENDING,
             paid_at = None, pay_created_at = now\<rparr>]\<rparr>"
    and res: "res = \<lparr>res_payment_id = new_id, res_payment_method = method,
                     res_payment_status = PENDING, res_created_at = now,
                     upi_uri = buildUpiPayUri
                        \<lparr>payeeVpa = UPI_VPA ev, payeeName = UPI_PAYEE_NAME ev,
                         amount = total_cost job,
                         transactionNote = ''Print job '' @ print_id job,
                         transactionRef = new_id\<rparr>\<rparr>"
    by (auto simp: initiate_def payment_create_def Let_def split: if_splits)
  have uri: "upi_uri res =
           ''upi://pay?pa='' @ urlencode (UPI_VPA ev) @
           ''&pn='' @ urlencode (UPI_PAYEE_NAME ev) @
           ''&am='' @ digits (nat (total_cost job)) @ ''.00'' @
           ''&cu=INR'' @
           ''&tn=Print+job+'' @ urlencode pid @
           ''&tr='' @ urlencode new_id"
    by (simp add: res buildUpiPayUri_eq tf pk urlencode_Cons urlencoded_byte_def unreserved_def)
  have dv: "int (decimal_value (digits (nat (total_cost job)))) = total_cost job"
    using r by (simp add: decimal_value_digits)
  show ?thesis
    using uri dv digits_chars [of "nat (total_cost job)"] by (simp add: s' res)
qed

theorem initiate_success_witness:
  "printJob_findUnique pstore0 ''P1'' = Some job1 \<and>
   0 \<le> total_cost job1 \<and> total_cost job1 < 10 ^ 21 \<and>
   (\<exists>s' res. initiate env0 pstore0 ''PA2'' 7 auth1 ''P1'' UPI = (s', Inr res) \<and>
      payments s' = [pay1, \<lparr>payment_id = ''PA2'', pay_user_id = ''U1'', pay_print_id = ''P1'',
             payment_method = UPI, transaction_id = None, payment_status = PENDING,
             paid_at = None, pay_created_at = 7\<rparr>] \<and>
      printJobs s' = [job1, job2] \<and>
      res_payment_status res = PENDING \<and>
      upi_uri res =
        ''upi://pay?pa=library%40upi&pn=E-Library&am=20.00&cu=INR&tn=Print+job+P1&tr=PA2'')"
proof -
  have j: "printJob_findUnique pstore0 ''P1'' = Some job1"
    by (simp add: printJob_findUnique_def pstore0_defs)
  have r: "0 \<le> total_cost job1" "total_cost job1 < 10 ^ 21"
    by (simp_all add: job1_def)
  obtain s' res where ok: "initiate env0 pstore0 ''PA2'' 7 auth1 ''P1'' UPI = (s', Inr res)"
    by (simp add: pay_defs pstore0_defs)
  have e: "urlencode (UPI_VPA env0) = ''library%40upi''"
    "urlencode (UPI_PAYEE_NAME env0) = ''E-Library''"
    "urlencode ''P1'' = ''P1''" "urlencode ''PA2'' = ''PA2''"
    "digits (nat (total_cost job1)) = ''20''"
    "userId auth1 = ''U1''" "payments pstore0 = [pay1]" "printJobs pstore0 = [job1, job2]"
    by (simp_all add: env0_def job1_def auth1_def pstore0_def urlencode_def urlencoded_byte_def
        unreserved_def hex_digit_def digits_20)
  show ?thesis
    using j r ok initiate_success [OF ok j r]
    by (simp add: e)
qed

section \<open>Reading the status of a payment\<close>

text \<open>
  C8. For a payment that exists: its owner, a LIBRARY_ADMIN and a SUPER_ADMIN get the
  payment together with the \<open>total_cost\<close> and \<open>payment_status\<close> of its print job;
  any other requester gets Forbidden. The store is left as it was in both cases.
\<close>

theorem getPaymentStatus_spec:
  assumes "payment_findUnique s pid = Some p"
  shows "((pay_user_id p = userId auth \<or> role auth = LIBRARY_ADMIN \<or> role auth = SUPER_ADMIN) \<and>
          printJob_findUnique s (pay_print_id p) = Some job \<longrightarrow>
            getPaymentStatus s auth pid =
              (s, Inr (p, \<lparr>sum_total_cost = total_cost job,
                           sum_payment_status = job_payment_status job\<rparr>))) \<and>
         (pay_user_id p \<noteq> userId auth \<and> role auth \<noteq> LIBRARY_ADMIN \<and> role auth \<noteq> SUPER_ADMIN \<longrightarrow>
            getPaymentStatus s auth pid = (s, Inl (Forbidden ''Forbidden'')))"
  using assms by (auto simp: getPaymentStatus_def Let_def)

theorem getPaymentStatus_spec_witness:
  "payment_findUnique pstore0 ''PA1'' = Some pay1 \<and>
   printJob_findUnique pstore0 (pay_print_id pay1) = Some job1 \<and>
   pay_user_id pay1 = userId auth1 \<and>
   getPaymentStatus pstore0 auth1 ''PA1'' =
     (pstore0, Inr (pay1, \<lparr>sum_total_cost = 20, sum_payment_status = PENDING\<rparr>)) \<and>
   role admin3 = LIBRARY_ADMIN \<and>
   getPaymentStatus pstore0 admin3 ''PA1'' =
     (pstore0, Inr (pay1, \<lparr>sum_total_cost = 20, sum_payment_status = PENDING\<rparr>)) \<and>
   pay_user_id pay1 \<noteq> userId auth2 \<and> role auth2 = USER \<and>
   getPaymentStatus pstore0 auth2 ''PA1'' = (pstore0, Inl (Forbidden ''Forbidden''))"
proof -
  have p: "payment_findUnique pstore0 ''PA1'' = Some pay1"
    by (simp add: payment_findUnique_def pstore0_defs)
  have j: "printJob_findUnique pstore0 (pay_print_id pay1) = Some job1"
    by (simp add: printJob_findUnique_def pstore0_defs)
  have o: "pay_user_id pay1 = userId auth1" "role admin3 = LIBRARY_ADMIN"
    "pay_user_id pay1 \<noteq> userId auth2" "role auth2 = USER"
    "total_cost job1 = 20" "job_payment_status job1 = PENDING"
    by (simp_all add: pstore0_defs)
  show ?thesis
    using p j o
      getPaymentStatus_spec [OF p, of auth1 job1]
      getPaymentStatus_spec [OF p, of admin3 job1]
      getPaymentStatus_spec [OF p, of auth2 job1]
    by simp
qed

end
